theory Spec2Isabelle
  imports Complex_Main "HOL-Library.Word"
begin

section \<open>Skill search box and random-number button\<close>

text \<open>
  A shallow embedding of \<^verbatim>\<open>assets/js/search.js\<close> (the search box: index loading,
  highlighting, rendering, searching, keyboard navigation) and of the compiled
  click handler of the random-number button.  Module-level variables and the DOM
  elements the scripts touch form an explicit state record; each function of the
  scripts is a state transformer.  Host facilities whose behaviour is not part of
  the scripts (the search library, \<^verbatim>\<open>Array.prototype.sort\<close>, Unicode case
  folding, number formatting) are parameters.
\<close>

subsection \<open>Strings\<close>

text \<open>
  A JavaScript string is a sequence of UTF-16 code units; \<^verbatim>\<open>length\<close> counts
  code units.
\<close>

type_synonym jschar = "16 word"
type_synonym jsstring = "jschar list"

text \<open>The code units of an ASCII literal.\<close>

definition utf16 :: "string \<Rightarrow> jsstring" where
  "utf16 s = map (\<lambda>c. of_nat (of_char c)) s"

subsection \<open>highlightMatch\<close>

text \<open>
  \<^verbatim>\<open>query.replace(/[.*+?^${}()|[\]\\]/g, '\\$&')\<close>: every code unit of the
  character class is replaced by a backslash followed by itself.
\<close>

definition backslash :: jschar where
  "backslash = 0x5C"

definition specialChars :: "jschar list" where
  "specialChars =
     [0x2E, 0x2A, 0x2B, 0x3F, 0x5E, 0x24, 0x7B, 0x7D, 0x28, 0x29, 0x7C, 0x5B, 0x5D, 0x5C]"

fun escapeQuery :: "jsstring \<Rightarrow> jsstring" where
  "escapeQuery [] = []"
| "escapeQuery (c # cs) =
     (if c \<in> set specialChars then backslash # c # escapeQuery cs
      else c # escapeQuery cs)"

text \<open>
  \<^verbatim>\<open>new RegExp(`(${escapedQuery})`, 'gi')\<close>.  The pattern grammar of ECMAScript
  (without the \<^verbatim>\<open>u\<close> flag) is embedded for the patterns that are one capture
  group around a sequence of literal terms: a pattern character is any code unit
  that is not one of the fourteen syntax characters
  \<^verbatim>\<open>^ $ \ . * + ? ( ) [ ] { } |\<close>, and a backslash followed by a syntax character is
  an identity escape that stands for that character.  \<open>parseLiteralTerms\<close> yields
  the literal a pattern body matches, and \<open>None\<close> for a body that uses any other
  construct of the grammar.
\<close>

definition syntaxChars :: "jschar list" where
  "syntaxChars =
     [0x5E, 0x24, 0x5C, 0x2E, 0x2A, 0x2B, 0x3F, 0x28, 0x29, 0x5B, 0x5D, 0x7B, 0x7D, 0x7C]"

fun parseLiteralTerms :: "jsstring \<Rightarrow> jsstring option" where
  "parseLiteralTerms [] = Some []"
| "parseLiteralTerms [c] =
     (if c \<in> set syntaxChars then None else Some [c])"
| "parseLiteralTerms (c # d # cs) =
     (if c = backslash then
        (if d \<in> set syntaxChars then map_option ((#) d) (parseLiteralTerms cs) else None)
      else if c \<in> set syntaxChars then None
      else map_option ((#) c) (parseLiteralTerms (d # cs)))"

definition parseGroupPattern :: "jsstring \<Rightarrow> jsstring option" where
  "parseGroupPattern src =
     (case src of
        [] \<Rightarrow> None
      | c # rest \<Rightarrow>
          if c = 0x28 \<and> rest \<noteq> [] \<and> last rest = 0x29
          then parseLiteralTerms (butlast rest) else None)"

text \<open>
  Matching with the \<^verbatim>\<open>i\<close> flag compares code units after canonicalisation
  (\<^verbatim>\<open>Canonicalize\<close> of ECMAScript, which goes through the Unicode upper-case
  mapping).  The mapping is a parameter \<open>canon\<close>.
\<close>

fun matchHere :: "(jschar \<Rightarrow> jschar) \<Rightarrow> jsstring \<Rightarrow> jsstring \<Rightarrow> bool" where
  "matchHere canon [] t = True"
| "matchHere canon (p # ps) [] = False"
| "matchHere canon (p # ps) (c # cs) = (canon p = canon c \<and> matchHere canon ps cs)"

text \<open>
  \<^verbatim>\<open>text.replace(regex, '<mark>$1</mark>')\<close> with the \<^verbatim>\<open>g\<close> flag: the text is
  scanned from the left; where the pattern matches, the match is replaced and the
  scan goes on behind it, elsewhere the code unit is kept.  The result is kept as
  a list of segments first; \<open>$1\<close> is the text of the match.  An empty pattern
  matches before every code unit and at the end.
\<close>

datatype segment = Plain jschar | Marked jsstring

function replaceSegments :: "(jschar \<Rightarrow> jschar) \<Rightarrow> jsstring \<Rightarrow> jsstring \<Rightarrow> segment list" where
  "replaceSegments canon [] [] = [Marked []]"
| "replaceSegments canon [] (c # cs) = Marked [] # Plain c # replaceSegments canon [] cs"
| "replaceSegments canon (p # ps) [] = []"
| "replaceSegments canon (p # ps) (c # cs) =
     (if matchHere canon (p # ps) (c # cs)
      then Marked (take (length (p # ps)) (c # cs))
             # replaceSegments canon (p # ps) (drop (length ps) cs)
      else Plain c # replaceSegments canon (p # ps) cs)"
  by pat_completeness auto
termination
  by (relation "measure (\<lambda>(canon, lit, t). length t)") auto

definition markOpen :: jsstring where
  "markOpen = [0x3C, 0x6D, 0x61, 0x72, 0x6B, 0x3E]"

definition markClose :: jsstring where
  "markClose = [0x3C, 0x2F, 0x6D, 0x61, 0x72, 0x6B, 0x3E]"

fun renderSegments :: "segment list \<Rightarrow> jsstring" where
  "renderSegments [] = []"
| "renderSegments (Plain c # segs) = c # renderSegments segs"
| "renderSegments (Marked m # segs) = markOpen @ m @ markClose @ renderSegments segs"

definition highlightSegments :: "(jschar \<Rightarrow> jschar) \<Rightarrow> jsstring \<Rightarrow> jsstring \<Rightarrow> segment list" where
  "highlightSegments canon text query =
     (case parseGroupPattern ([0x28] @ escapeQuery query @ [0x29]) of
        Some lit \<Rightarrow> replaceSegments canon lit text
      | None \<Rightarrow> map Plain text)"

definition highlightMatch :: "(jschar \<Rightarrow> jschar) \<Rightarrow> jsstring \<Rightarrow> jsstring \<Rightarrow> jsstring" where
  "highlightMatch canon text query =
     (if query = [] \<or> text = [] then text
      else renderSegments (highlightSegments canon text query))"

text \<open>
  \<^verbatim>\<open>String.prototype.trim\<close> removes the white space and line terminator code
  units of ECMAScript from both ends.
\<close>

definition whiteSpaceChars :: "jschar list" where
  "whiteSpaceChars =
     [0x0009, 0x000A, 0x000B, 0x000C, 0x000D, 0x0020, 0x00A0, 0x1680,
      0x2000, 0x2001, 0x2002, 0x2003, 0x2004, 0x2005, 0x2006, 0x2007, 0x2008, 0x2009, 0x200A,
      0x2028, 0x2029, 0x202F, 0x205F, 0x3000, 0xFEFF]"

definition trim :: "jsstring \<Rightarrow> jsstring" where
  "trim s =
     rev (dropWhile (\<lambda>c. c \<in> set whiteSpaceChars)
            (rev (dropWhile (\<lambda>c. c \<in> set whiteSpaceChars) s)))"

subsection \<open>Hits, errors and the search library\<close>

text \<open>
  A hit of the library carries the stored fields of the index record and the
  score.  JavaScript numbers are modelled as exact rationals, without the rounding
  of double arithmetic: a difference of scores that lies within one rounding error
  of the tolerance 0.1, or a score whose hundredfold lies within one rounding error
  of a half, can fall on the other side in the browser.
\<close>

record hit =
  hit_id :: jsstring
  name :: jsstring
  description :: jsstring
  path :: jsstring
  weight :: rat
  score :: rat

datatype js_error =
    FetchFailed       \<comment> \<open>\<^verbatim>\<open>fetch\<close> rejects\<close>
  | HttpError nat     \<comment> \<open>\<^verbatim>\<open>new Error(`HTTP error! status: ${response.status}`)\<close>\<close>
  | JsonSyntaxError   \<comment> \<open>\<^verbatim>\<open>response.json()\<close> rejects\<close>
  | NullTypeError     \<comment> \<open>property read on \<^verbatim>\<open>null\<close>\<close>
  | LibraryError      \<comment> \<open>thrown inside the search library\<close>

datatype json_value =
    JNull
  | JBool bool
  | JNumber rat
  | JString jsstring
  | JArray "json_value list"
  | JObject "(jsstring \<times> json_value) list"

record response =
  ok :: bool
  status :: nat
  json_body :: "js_error + json_value"  \<comment> \<open>what \<^verbatim>\<open>response.json()\<close> settles to\<close>

datatype combinator = CombineAND | CombineOR

record search_options =
  boost_name :: rat
  boost_description :: rat
  boost_tags :: rat
  boost_content :: rat
  fuzzy :: rat
  prefix_search :: bool
  combineWith :: combinator

text \<open>An index instance of the library: its \<^verbatim>\<open>search\<close> method returns hits or throws.\<close>

datatype minisearch =
  MiniSearch (search: "jsstring \<Rightarrow> search_options \<Rightarrow> js_error + hit list")

subsection \<open>State of the search box\<close>

text \<open>
  The dropdown's content is kept as the element list its \<^verbatim>\<open>innerHTML\<close> parses
  to: the message element of the empty result, or one anchor of class
  \<^verbatim>\<open>search-result-item\<close> per rendered hit (the stored fields are taken to be
  text without markup of their own).
\<close>

record result_item =
  href :: jsstring
  active :: bool                \<comment> \<open>class \<^verbatim>\<open>active\<close>\<close>
  data_index :: nat
  result_name :: jsstring       \<comment> \<open>content of \<^verbatim>\<open>.result-name\<close>\<close>
  result_desc :: jsstring       \<comment> \<open>content of \<^verbatim>\<open>.result-desc\<close>\<close>
  result_relevance :: int
  result_weight :: rat

datatype node = NoResults jsstring | ResultItem result_item

datatype console_entry =
    LogInitStart                \<comment> \<open>first \<^verbatim>\<open>console.log\<close> of \<^verbatim>\<open>init\<close>\<close>
  | LogInitDone                 \<comment> \<open>last \<^verbatim>\<open>console.log\<close> of \<^verbatim>\<open>init\<close>\<close>
  | LogIndexLoaded              \<comment> \<open>\<^verbatim>\<open>console.log\<close> after a successful load\<close>
  | ErrorIndexLoad js_error     \<comment> \<open>\<^verbatim>\<open>console.error\<close> in \<^verbatim>\<open>loadSearchIndex\<close>\<close>
  | WarnIndexNotLoaded          \<comment> \<open>\<^verbatim>\<open>console.warn\<close> in \<^verbatim>\<open>performSearch\<close>\<close>
  | ErrorSearch js_error        \<comment> \<open>\<^verbatim>\<open>console.error\<close> in \<^verbatim>\<open>performSearch\<close>\<close>

record state =
  searchIndex :: "minisearch option"     \<comment> \<open>\<^verbatim>\<open>null\<close> is \<open>None\<close>\<close>
  currentFocusIndex :: int
  searchResults :: "hit list"
  inputValue :: jsstring                 \<comment> \<open>\<^verbatim>\<open>searchInput.value\<close>\<close>
  inputFocused :: bool
  dropdownChildren :: "node list"        \<comment> \<open>\<^verbatim>\<open>searchDropdown.innerHTML\<close>\<close>
  dropdownShow :: bool                   \<comment> \<open>class \<^verbatim>\<open>show\<close> of the dropdown\<close>
  console :: "console_entry list"
  navigatedTo :: "jsstring option"       \<comment> \<open>link followed by a click on a result\<close>

text \<open>The module-level declarations, on a page whose search box is still empty.\<close>

definition initialState :: state where
  "initialState =
     \<lparr>searchIndex = None, currentFocusIndex = -1, searchResults = [],
      inputValue = [], inputFocused = False, dropdownChildren = [], dropdownShow = False,
      console = [], navigatedTo = None\<rparr>"

subsection \<open>loadSearchIndex\<close>

text \<open>
  \<open>fetched\<close> is what \<^verbatim>\<open>fetch('/data/search-index.json')\<close> settles to, and
  \<open>loadJSON\<close> is \<^verbatim>\<open>MiniSearch.loadJSON\<close> with the options of the script.
\<close>

definition loadSearchIndex ::
  "(json_value \<Rightarrow> js_error + minisearch) \<Rightarrow> js_error + response \<Rightarrow> state \<Rightarrow> state" where
  "loadSearchIndex loadJSON fetched s =
     (case fetched of
        Inl e \<Rightarrow> s\<lparr>console := console s @ [ErrorIndexLoad e]\<rparr>
      | Inr resp \<Rightarrow>
          if \<not> ok resp
          then s\<lparr>console := console s @ [ErrorIndexLoad (HttpError (status resp))]\<rparr>
          else (case json_body resp of
                  Inl e \<Rightarrow> s\<lparr>console := console s @ [ErrorIndexLoad e]\<rparr>
                | Inr data \<Rightarrow>
                    (case loadJSON data of
                       Inl e \<Rightarrow> s\<lparr>console := console s @ [ErrorIndexLoad e]\<rparr>
                     | Inr idx \<Rightarrow>
                         s\<lparr>searchIndex := Some idx,
                           console := console s @ [LogIndexLoaded]\<rparr>)))"

subsection \<open>renderResults and the events of the result items\<close>

definition noResultsText :: jsstring where
  "noResultsText = [0x627E, 0x4E0D, 0x5230, 0x76F8, 0x95DC, 0x6280, 0x80FD]"

text \<open>\<^verbatim>\<open>Math.round(x)\<close>: the nearest integer, a half rounded up.\<close>

definition mathRound :: "rat \<Rightarrow> int" where
  "mathRound x = \<lfloor>x + 1 / 2\<rfloor>"

definition renderItem ::
  "(jschar \<Rightarrow> jschar) \<Rightarrow> jsstring \<Rightarrow> int \<Rightarrow> nat \<Rightarrow> hit \<Rightarrow> result_item" where
  "renderItem canon query focus index r =
     \<lparr>href = path r,
      active = (int index = focus),
      data_index = index,
      result_name = highlightMatch canon (name r) query,
      result_desc = highlightMatch canon (description r) query,
      result_relevance = mathRound (score r * 100),
      result_weight = weight r\<rparr>"

definition renderResults :: "(jschar \<Rightarrow> jschar) \<Rightarrow> hit list \<Rightarrow> state \<Rightarrow> state" where
  "renderResults canon results s =
     (if length results = 0
      then s\<lparr>dropdownChildren := [NoResults noResultsText], dropdownShow := True\<rparr>
      else
        let query = trim (inputValue s);
            html = map (\<lambda>(index, r). ResultItem (renderItem canon query (currentFocusIndex s) index r))
                     (enumerate 0 (take 8 results))
        in s\<lparr>dropdownChildren := html, dropdownShow := True\<rparr>)"

text \<open>\<^verbatim>\<open>searchDropdown.querySelectorAll('.search-result-item')\<close>.\<close>

fun resultItems :: "node list \<Rightarrow> result_item list" where
  "resultItems [] = []"
| "resultItems (NoResults m # ns) = resultItems ns"
| "resultItems (ResultItem it # ns) = it # resultItems ns"

text \<open>\<^verbatim>\<open>resultItems.forEach((item, index) => ...)\<close> acting on the elements in place.\<close>

fun forEachItem :: "(nat \<Rightarrow> result_item \<Rightarrow> result_item) \<Rightarrow> nat \<Rightarrow> node list \<Rightarrow> node list" where
  "forEachItem f i [] = []"
| "forEachItem f i (NoResults m # ns) = NoResults m # forEachItem f i ns"
| "forEachItem f i (ResultItem it # ns) = ResultItem (f i it) # forEachItem f (Suc i) ns"

text \<open>The listeners bound by \<^verbatim>\<open>bindResultEvents\<close> to the item of position \<open>index\<close>.\<close>

definition mouseenter :: "nat \<Rightarrow> state \<Rightarrow> state" where
  "mouseenter index s =
     s\<lparr>dropdownChildren :=
          forEachItem (\<lambda>i it. it\<lparr>active := (i = index)\<rparr>) 0 (dropdownChildren s),
       currentFocusIndex := int index\<rparr>"

definition mouseleave :: "nat \<Rightarrow> state \<Rightarrow> state" where
  "mouseleave index s =
     s\<lparr>dropdownChildren :=
          forEachItem (\<lambda>i it. if i = index then it\<lparr>active := False\<rparr> else it) 0
            (dropdownChildren s),
       currentFocusIndex := -1\<rparr>"

subsection \<open>performSearch\<close>

definition searchOptions :: search_options where
  "searchOptions =
     \<lparr>boost_name = 3, boost_description = 2, boost_tags = 3 / 2, boost_content = 1,
      fuzzy = 1 / 5, prefix_search = True, combineWith = CombineOR\<rparr>"

text \<open>The comparison function handed to \<^verbatim>\<open>results.sort\<close>.\<close>

definition compareHits :: "hit \<Rightarrow> hit \<Rightarrow> rat" where
  "compareHits a b =
     (let scoreDiff = score b - score a
      in if \<bar>scoreDiff\<bar> > 1 / 10 then scoreDiff else weight b - weight a)"

text \<open>
  \<open>arraySort\<close> is the host's \<^verbatim>\<open>Array.prototype.sort\<close>.  Everything behind the
  two guards runs inside \<^verbatim>\<open>try\<close>; the library call is the statement that can
  throw.
\<close>

definition performSearch ::
  "(jschar \<Rightarrow> jschar) \<Rightarrow> ((hit \<Rightarrow> hit \<Rightarrow> rat) \<Rightarrow> hit list \<Rightarrow> hit list) \<Rightarrow> jsstring \<Rightarrow> state \<Rightarrow> state" where
  "performSearch canon arraySort query s =
     (case searchIndex s of
        None \<Rightarrow> s\<lparr>console := console s @ [WarnIndexNotLoaded]\<rparr>
      | Some idx \<Rightarrow>
          if length query < 2
          then s\<lparr>dropdownChildren := [], dropdownShow := False,
                 searchResults := [], currentFocusIndex := -1\<rparr>
          else (case search idx query searchOptions of
                  Inl e \<Rightarrow> s\<lparr>console := console s @ [ErrorSearch e]\<rparr>
                | Inr results \<Rightarrow>
                    let sorted = arraySort compareHits results
                    in renderResults canon sorted (s\<lparr>searchResults := sorted\<rparr>)))"

subsection \<open>Keyboard navigation\<close>

datatype key = ArrowDown | ArrowUp | Enter | Escape | OtherKey

definition updateActiveResult :: "state \<Rightarrow> state" where
  "updateActiveResult s =
     s\<lparr>dropdownChildren :=
          forEachItem (\<lambda>index it. it\<lparr>active := (int index = currentFocusIndex s)\<rparr>) 0
            (dropdownChildren s)\<rparr>"

text \<open>
  The handler returns the new state and whether it called
  \<^verbatim>\<open>e.preventDefault()\<close>.  The click on the active item follows its link.
\<close>

definition handleKeyboardNavigation :: "key \<Rightarrow> state \<Rightarrow> state \<times> bool" where
  "handleKeyboardNavigation k s =
     (let items = resultItems (dropdownChildren s) in
      if length items = 0 then (s, False)
      else case k of
        ArrowDown \<Rightarrow>
          (updateActiveResult
             (s\<lparr>currentFocusIndex := min (currentFocusIndex s + 1) (int (length items) - 1)\<rparr>),
           True)
      | ArrowUp \<Rightarrow>
          (updateActiveResult (s\<lparr>currentFocusIndex := max (currentFocusIndex s - 1) (- 1)\<rparr>),
           True)
      | Enter \<Rightarrow>
          (if currentFocusIndex s \<ge> 0 \<and> currentFocusIndex s < int (length items)
           then s\<lparr>navigatedTo := Some (href (items ! nat (currentFocusIndex s)))\<rparr>
           else s,
           True)
      | Escape \<Rightarrow>
          (s\<lparr>dropdownChildren := [], dropdownShow := False,
             inputFocused := False, currentFocusIndex := -1\<rparr>,
           False)
      | OtherKey \<Rightarrow> (s, False))"

definition keydown :: "key \<Rightarrow> state \<Rightarrow> state" where
  "keydown k s = fst (handleKeyboardNavigation k s)"

subsection \<open>The listeners bound by init\<close>

text \<open>The body of the debounced \<^verbatim>\<open>input\<close> listener, run once the timer fires.\<close>

definition onInput ::
  "(jschar \<Rightarrow> jschar) \<Rightarrow> ((hit \<Rightarrow> hit \<Rightarrow> rat) \<Rightarrow> hit list \<Rightarrow> hit list) \<Rightarrow> state \<Rightarrow> state" where
  "onInput canon arraySort s = performSearch canon arraySort (trim (inputValue s)) s"

definition onFocus ::
  "(jschar \<Rightarrow> jschar) \<Rightarrow> ((hit \<Rightarrow> hit \<Rightarrow> rat) \<Rightarrow> hit list \<Rightarrow> hit list) \<Rightarrow> state \<Rightarrow> state" where
  "onFocus canon arraySort s =
     (let s' = s\<lparr>inputFocused := True\<rparr>
      in if length (trim (inputValue s')) \<ge> 2
         then performSearch canon arraySort (trim (inputValue s')) s' else s')"

text \<open>A click whose target is neither inside the input nor inside the dropdown.\<close>

definition onClickOutside :: "state \<Rightarrow> state" where
  "onClickOutside s = s\<lparr>dropdownChildren := [], dropdownShow := False, currentFocusIndex := -1\<rparr>"

subsection \<open>init and the states the page reaches\<close>

text \<open>
  \<^verbatim>\<open>init\<close> logs, awaits \<^verbatim>\<open>loadSearchIndex\<close>, binds the listeners and
  logs again.  It runs once, on the state of the module-level declarations.
\<close>

definition init :: "(json_value \<Rightarrow> js_error + minisearch) \<Rightarrow> js_error + response \<Rightarrow> state" where
  "init loadJSON fetched =
     (let s = loadSearchIndex loadJSON fetched
                (initialState\<lparr>console := console initialState @ [LogInitStart]\<rparr>)
      in s\<lparr>console := console s @ [LogInitDone]\<rparr>)"

text \<open>
  The states of the page once \<^verbatim>\<open>init\<close> has run: the listeners of the script
  (the \<^verbatim>\<open>input\<close>, \<^verbatim>\<open>focus\<close> and \<^verbatim>\<open>keydown\<close> listeners of the input, the
  \<^verbatim>\<open>click\<close> listener of the document, the \<^verbatim>\<open>mouseenter\<close> and
  \<^verbatim>\<open>mouseleave\<close> listeners of the items that exist) and the user, who edits or
  leaves the input and clicks on an item, take one state to the next.
\<close>

inductive reachable ::
  "(jschar \<Rightarrow> jschar) \<Rightarrow> ((hit \<Rightarrow> hit \<Rightarrow> rat) \<Rightarrow> hit list \<Rightarrow> hit list) \<Rightarrow> state \<Rightarrow> bool"
  for canon arraySort where
  after_init: "reachable canon arraySort (init loadJSON fetched)"
| edit_input:
    "reachable canon arraySort s \<Longrightarrow> reachable canon arraySort (s\<lparr>inputValue := v\<rparr>)"
| blur_input:
    "reachable canon arraySort s \<Longrightarrow> reachable canon arraySort (s\<lparr>inputFocused := False\<rparr>)"
| input_event:
    "reachable canon arraySort s \<Longrightarrow> reachable canon arraySort (onInput canon arraySort s)"
| focus_event:
    "reachable canon arraySort s \<Longrightarrow> reachable canon arraySort (onFocus canon arraySort s)"
| keydown_event:
    "reachable canon arraySort s \<Longrightarrow> reachable canon arraySort (keydown k s)"
| click_outside:
    "reachable canon arraySort s \<Longrightarrow> reachable canon arraySort (onClickOutside s)"
| mouseenter_item:
    "reachable canon arraySort s \<Longrightarrow> index < length (resultItems (dropdownChildren s)) \<Longrightarrow>
       reachable canon arraySort (mouseenter index s)"
| mouseleave_item:
    "reachable canon arraySort s \<Longrightarrow> index < length (resultItems (dropdownChildren s)) \<Longrightarrow>
       reachable canon arraySort (mouseleave index s)"
| click_item:
    "reachable canon arraySort s \<Longrightarrow> index < length (resultItems (dropdownChildren s)) \<Longrightarrow>
       reachable canon arraySort
         (s\<lparr>navigatedTo := Some (href (resultItems (dropdownChildren s) ! index))\<rparr>)"

subsection \<open>The random-number button\<close>






subsection \<open>Reading a highlighted text\<close>

text \<open>
  What remains of a segment list when the inserted tags are taken away, where in
  the original text its marked segments start, and where the query occurs in a
  text (compared through \<open>canon\<close>).
\<close>

fun segmentText :: "segment \<Rightarrow> jsstring" where
  "segmentText (Plain c) = [c]"
| "segmentText (Marked m) = m"

definition stripMarks :: "segment list \<Rightarrow> jsstring" where
  "stripMarks segs = concat (map segmentText segs)"

fun markedStartsFrom :: "nat \<Rightarrow> segment list \<Rightarrow> nat list" where
  "markedStartsFrom k [] = []"
| "markedStartsFrom k (Plain c # segs) = markedStartsFrom (Suc k) segs"
| "markedStartsFrom k (Marked m # segs) = k # markedStartsFrom (k + length m) segs"

definition markedStarts :: "segment list \<Rightarrow> nat list" where
  "markedStarts segs = markedStartsFrom 0 segs"

definition occurrences :: "(jschar \<Rightarrow> jschar) \<Rightarrow> jsstring \<Rightarrow> jsstring \<Rightarrow> nat list" where
  "occurrences canon query text =
     filter (\<lambda>i. matchHere canon query (drop i text)) [0..<length text]"

subsection \<open>Concrete hosts and states for the examples\<close>

text \<open>
  Instances of the host parameters, exact on the inputs the examples use: case
  folding of the ASCII letters, a stable insertion sort, decimal printing of
  natural numbers, and an index of three records.  \<open>loadedState\<close> is the page
  after \<^verbatim>\<open>init\<close> has loaded that index, \<open>unloadedState\<close> the page after
  \<^verbatim>\<open>init\<close> got a 404 response, \<open>shownState\<close> the page after a search with three
  hits and \<open>noHitsState\<close> the page after a search without hits.
\<close>

definition canonAscii :: "jschar \<Rightarrow> jschar" where
  "canonAscii c = (if 0x61 \<le> c \<and> c \<le> 0x7A then c - 0x20 else c)"

fun insertHit :: "(hit \<Rightarrow> hit \<Rightarrow> rat) \<Rightarrow> hit \<Rightarrow> hit list \<Rightarrow> hit list" where
  "insertHit cmp x [] = [x]"
| "insertHit cmp x (y # ys) = (if cmp x y < 0 then x # y # ys else y # insertHit cmp x ys)"

definition stableSort :: "(hit \<Rightarrow> hit \<Rightarrow> rat) \<Rightarrow> hit list \<Rightarrow> hit list" where
  "stableSort cmp xs = foldl (\<lambda>acc x. insertHit cmp x acc) [] xs"

fun natToString :: "nat \<Rightarrow> jsstring" where
  "natToString n =
     (if n < 10 then [of_nat (48 + n)]
      else natToString (n div 10) @ [of_nat (48 + n mod 10)])"


definition sampleHit :: "jsstring \<Rightarrow> rat \<Rightarrow> rat \<Rightarrow> hit" where
  "sampleHit nm sc w =
     \<lparr>hit_id = nm, name = nm, description = utf16 ''a skill'', path = utf16 ''/skills/'' @ nm,
      weight = w, score = sc\<rparr>"

definition sampleHits :: "hit list" where
  "sampleHits =
     [sampleHit (utf16 ''git'') 1 1, sampleHit (utf16 ''go'') (23 / 25) 2,
      sampleHit (utf16 ''gog'') (21 / 25) 3]"

definition manyHits :: "hit list" where
  "manyHits = map (\<lambda>i. sampleHit (natToString i) (of_nat (20 - i)) 1) [0..<10]"

definition sampleSearch :: "jsstring \<Rightarrow> search_options \<Rightarrow> js_error + hit list" where
  "sampleSearch q opts =
     (if q = utf16 ''zz'' then Inr []
      else if q = utf16 ''!!'' then Inl LibraryError
      else Inr sampleHits)"

definition okResponse :: "js_error + json_value \<Rightarrow> response" where
  "okResponse body = \<lparr>ok = True, status = 200, json_body = body\<rparr>"

definition notFoundResponse :: response where
  "notFoundResponse = \<lparr>ok = False, status = 404, json_body = Inl JsonSyntaxError\<rparr>"

definition sampleLoadJSON :: "json_value \<Rightarrow> js_error + minisearch" where
  "sampleLoadJSON data = Inr (MiniSearch sampleSearch)"

definition loadedState :: state where
  "loadedState = init sampleLoadJSON (Inr (okResponse (Inr (JArray []))))"

definition unloadedState :: state where
  "unloadedState = init sampleLoadJSON (Inr notFoundResponse)"

definition shownState :: state where
  "shownState =
     performSearch canonAscii stableSort (utf16 ''go'')
       (loadedState\<lparr>inputValue := utf16 ''go'', inputFocused := True\<rparr>)"

definition noHitsState :: state where
  "noHitsState =
     performSearch canonAscii stableSort (utf16 ''zz'')
       (loadedState\<lparr>inputValue := utf16 ''zz'', inputFocused := True\<rparr>)"


section \<open>Highlighting\<close>

lemma set_specialChars: "set specialChars = set syntaxChars"
  by (auto simp: specialChars_def syntaxChars_def)

lemma escapeQuery_Nil_iff: "escapeQuery q = [] \<longleftrightarrow> q = []"
  by (cases q) auto

text \<open>The escaped query always parses, and to the query itself.\<close>

lemma parseLiteralTerms_escapeQuery: "parseLiteralTerms (escapeQuery q) = Some q"
proof (induction q)
  case Nil
  then show ?case by simp
next
  case (Cons c cs)
  show ?case
  proof (cases "c \<in> set specialChars")
    case True
    then show ?thesis using Cons by (simp add: set_specialChars)
  next
    case False
    then have nb: "c \<noteq> backslash" by (auto simp: specialChars_def backslash_def)
    show ?thesis
    proof (cases "escapeQuery cs")
      case Nil
      then show ?thesis using False Cons by (simp add: set_specialChars escapeQuery_Nil_iff)
    next
      case (Cons d ds)
      then show ?thesis using False nb Cons.IH by (simp add: set_specialChars)
    qed
  qed
qed

lemma parseGroupPattern_escapeQuery:
  "parseGroupPattern ([0x28] @ escapeQuery q @ [0x29]) = Some q"
  by (simp add: parseGroupPattern_def parseLiteralTerms_escapeQuery butlast_append)

lemma highlightSegments_eq:
  "highlightSegments canon text query = replaceSegments canon query text"
  using parseGroupPattern_escapeQuery [of query] by (simp add: highlightSegments_def)

lemma matchHere_iff:
  "matchHere canon lit t \<longleftrightarrow>
     length lit \<le> length t \<and> map canon (take (length lit) t) = map canon lit"
  by (induction canon lit t rule: matchHere.induct) auto

lemma replaceSegments_match:
  "matchHere canon (p # ps) (c # cs) \<Longrightarrow>
     replaceSegments canon (p # ps) (c # cs) =
       Marked (c # take (length ps) cs) # replaceSegments canon (p # ps) (drop (length ps) cs)"
  by simp

lemma replaceSegments_nomatch:
  "\<not> matchHere canon (p # ps) (c # cs) \<Longrightarrow>
     replaceSegments canon (p # ps) (c # cs) = Plain c # replaceSegments canon (p # ps) cs"
  by simp

lemma stripMarks_replaceSegments: "stripMarks (replaceSegments canon lit t) = t"
  by (induction canon lit t rule: replaceSegments.induct)
     (auto simp: stripMarks_def matchHere_iff)

lemma marked_replaceSegments:
  "Marked m \<in> set (replaceSegments canon lit t) \<Longrightarrow> lit \<noteq> [] \<Longrightarrow>
     length m = length lit \<and> map canon m = map canon lit"
  by (induction canon lit t rule: replaceSegments.induct)
     (auto simp: matchHere_iff split: if_splits)

lemma markedStarts_are_occurrences:
  "j \<in> set (markedStartsFrom k (replaceSegments canon (p # ps) t)) \<Longrightarrow>
     k \<le> j \<and> j - k < length t \<and> matchHere canon (p # ps) (drop (j - k) t)"
proof (induction canon "p # ps" t arbitrary: k rule: replaceSegments.induct)
  case (3 canon)
  then show ?case by simp
next
  case (4 canon c cs)
  show ?case
  proof (cases "matchHere canon (p # ps) (c # cs)")
    case True
    have len: "length ps \<le> length cs" using True by (simp add: matchHere_iff)
    have ms: "markedStartsFrom k (replaceSegments canon (p # ps) (c # cs)) =
        k # markedStartsFrom (k + Suc (length ps))
              (replaceSegments canon (p # ps) (drop (length ps) cs))"
      unfolding replaceSegments_match [OF True] using len by (simp add: min_def)
    from "4.prems" have "j = k \<or>
        j \<in> set (markedStartsFrom (k + Suc (length ps))
                  (replaceSegments canon (p # ps) (drop (length ps) cs)))"
      unfolding ms by simp
    then show ?thesis
    proof
      assume "j = k"
      then show ?thesis using True by (simp del: matchHere.simps)
    next
      assume a: "j \<in> set (markedStartsFrom (k + Suc (length ps))
                            (replaceSegments canon (p # ps) (drop (length ps) cs)))"
      from "4.hyps"(1) [OF True a]
      have h: "k + Suc (length ps) \<le> j"
        "j - (k + Suc (length ps)) < length (drop (length ps) cs)"
        "matchHere canon (p # ps) (drop (j - (k + Suc (length ps))) (drop (length ps) cs))"
        by auto
      have e: "j - k = Suc (length ps + (j - (k + Suc (length ps))))" using h(1) by arith
      show ?thesis using h by (simp add: e add.commute del: matchHere.simps)
    qed
  next
    case False
    from "4.prems" have a: "j \<in> set (markedStartsFrom (Suc k) (replaceSegments canon (p # ps) cs))"
      unfolding replaceSegments_nomatch [OF False] by simp
    from "4.hyps"(2) [OF False a]
    have h: "Suc k \<le> j" "j - Suc k < length cs" "matchHere canon (p # ps) (drop (j - Suc k) cs)"
      by auto
    have e: "j - k = Suc (j - Suc k)" using h(1) by arith
    show ?thesis using h by (simp add: e del: matchHere.simps)
  qed
qed

lemma occurrences_are_covered:
  "i < length t \<Longrightarrow> matchHere canon (p # ps) (drop i t) \<Longrightarrow>
     \<exists>j \<in> set (markedStartsFrom k (replaceSegments canon (p # ps) t)).
        j \<le> k + i \<and> k + i < j + length (p # ps)"
proof (induction canon "p # ps" t arbitrary: k i rule: replaceSegments.induct)
  case (3 canon)
  then show ?case by simp
next
  case (4 canon c cs)
  show ?case
  proof (cases "matchHere canon (p # ps) (c # cs)")
    case True
    have len: "length ps \<le> length cs" using True by (simp add: matchHere_iff)
    have ms: "markedStartsFrom k (replaceSegments canon (p # ps) (c # cs)) =
        k # markedStartsFrom (k + Suc (length ps))
              (replaceSegments canon (p # ps) (drop (length ps) cs))"
      unfolding replaceSegments_match [OF True] using len by (simp add: min_def)
    show ?thesis
    proof (cases "i < Suc (length ps)")
      case True
      then show ?thesis unfolding ms by simp
    next
      case False
      then obtain i' where i': "i = Suc (length ps) + i'" by (metis le_Suc_ex not_less)
      have 1: "i' < length (drop (length ps) cs)" using "4.prems"(1) i' by simp
      have 2: "matchHere canon (p # ps) (drop i' (drop (length ps) cs))"
        using "4.prems"(2) i' by (simp add: add.commute del: matchHere.simps)
      from "4.hyps"(1) [OF True 1 2, of "k + Suc (length ps)"]
      obtain j where j:
        "j \<in> set (markedStartsFrom (k + Suc (length ps))
                    (replaceSegments canon (p # ps) (drop (length ps) cs)))"
        "j \<le> k + Suc (length ps) + i'" "k + Suc (length ps) + i' < j + length (p # ps)"
        by auto
      have "j \<in> set (markedStartsFrom k (replaceSegments canon (p # ps) (c # cs)))"
        unfolding ms using j(1) by simp
      moreover have "j \<le> k + i" "k + i < j + length (p # ps)" using j(2,3) i' by simp_all
      ultimately show ?thesis by blast
    qed
  next
    case False
    have ms: "markedStartsFrom k (replaceSegments canon (p # ps) (c # cs)) =
        markedStartsFrom (Suc k) (replaceSegments canon (p # ps) cs)"
      unfolding replaceSegments_nomatch [OF False] by simp
    from False "4.prems"(2) obtain i' where i': "i = Suc i'" by (cases i) auto
    have 1: "i' < length cs" using "4.prems"(1) i' by simp
    have 2: "matchHere canon (p # ps) (drop i' cs)"
      using "4.prems"(2) i' by (simp del: matchHere.simps)
    from "4.hyps"(2) [OF False 1 2, of "Suc k"]
    show ?thesis unfolding ms using i' by simp
  qed
qed

text \<open>
  C4, as the code has it.  For a non-empty text and a non-empty query,
  \<^verbatim>\<open>highlightMatch\<close> returns the text cut into segments, the marked ones
  wrapped in \<^verbatim>\<open><mark>\<close> and \<^verbatim>\<open></mark>\<close>, such that: taking the inserted tags
  away gives back exactly the original text; every marked segment is a
  case-insensitive occurrence of the query, of the query's length, and starts where
  the query occurs in the text; and every occurrence of the query in the text
  either is a marked segment or begins inside a marked segment that starts before
  it (the scan runs from the left and goes on behind each match, so an occurrence
  that overlaps an earlier match gets no marker of its own).
\<close>

theorem highlightMatch_marks_scanned_occurrences:
  assumes "text \<noteq> []" and "query \<noteq> []"
  shows "highlightMatch canon text query = renderSegments (highlightSegments canon text query)
       \<and> stripMarks (highlightSegments canon text query) = text
       \<and> (\<forall>m. Marked m \<in> set (highlightSegments canon text query) \<longrightarrow>
             length m = length query \<and> map canon m = map canon query)
       \<and> set (markedStarts (highlightSegments canon text query))
             \<subseteq> set (occurrences canon query text)
       \<and> (\<forall>i \<in> set (occurrences canon query text).
             \<exists>j \<in> set (markedStarts (highlightSegments canon text query)).
               j \<le> i \<and> i < j + length query)"
proof -
  from assms(2) obtain p ps where q: "query = p # ps" by (cases query) auto
  have 1: "highlightMatch canon text query = renderSegments (highlightSegments canon text query)"
    using assms by (simp add: highlightMatch_def)
  have 2: "stripMarks (highlightSegments canon text query) = text"
    by (simp add: highlightSegments_eq stripMarks_replaceSegments)
  have 3: "\<forall>m. Marked m \<in> set (highlightSegments canon text query) \<longrightarrow>
      length m = length query \<and> map canon m = map canon query"
    using marked_replaceSegments [OF _ assms(2)] by (simp add: highlightSegments_eq)
  have 4: "set (markedStarts (highlightSegments canon text query))
      \<subseteq> set (occurrences canon query text)"
  proof
    fix j
    assume "j \<in> set (markedStarts (highlightSegments canon text query))"
    then have "j \<in> set (markedStartsFrom 0 (replaceSegments canon (p # ps) text))"
      by (simp add: markedStarts_def highlightSegments_eq q)
    from markedStarts_are_occurrences [OF this]
    have "j < length text" and "matchHere canon (p # ps) (drop j text)" by simp_all
    then show "j \<in> set (occurrences canon query text)"
      by (simp add: occurrences_def q del: matchHere.simps)
  qed
  have 5: "\<forall>i \<in> set (occurrences canon query text).
      \<exists>j \<in> set (markedStarts (highlightSegments canon text query)).
        j \<le> i \<and> i < j + length query"
  proof
    fix i
    assume "i \<in> set (occurrences canon query text)"
    then have "i < length text" and "matchHere canon (p # ps) (drop i text)"
      by (simp_all add: occurrences_def q del: matchHere.simps)
    from occurrences_are_covered [OF this, of 0]
    show "\<exists>j \<in> set (markedStarts (highlightSegments canon text query)).
        j \<le> i \<and> i < j + length query"
      by (simp add: markedStarts_def highlightSegments_eq q)
  qed
  from 1 2 3 4 5 show ?thesis by (intro conjI)
qed

theorem highlightMatch_marks_scanned_occurrences_witness:
  "utf16 ''Go (go) .go'' \<noteq> [] \<and> utf16 ''(GO)'' \<noteq> []
   \<and> highlightMatch canonAscii (utf16 ''Go (go) .go'') (utf16 ''(GO)'')
        = utf16 ''Go <mark>(go)</mark> .go''
   \<and> stripMarks (highlightSegments canonAscii (utf16 ''Go (go) .go'') (utf16 ''(GO)''))
        = utf16 ''Go (go) .go''
   \<and> markedStarts (highlightSegments canonAscii (utf16 ''Go (go) .go'') (utf16 ''(GO)'')) = [3]
   \<and> occurrences canonAscii (utf16 ''(GO)'') (utf16 ''Go (go) .go'') = [3]"
proof -
  have t: "utf16 ''Go (go) .go'' \<noteq> []" and q: "utf16 ''(GO)'' \<noteq> []"
    by (simp_all add: utf16_def)
  note res = highlightMatch_marks_scanned_occurrences [OF t q, of canonAscii]
  have r: "renderSegments (highlightSegments canonAscii (utf16 ''Go (go) .go'') (utf16 ''(GO)''))
      = utf16 ''Go <mark>(go)</mark> .go''"
    by code_simp
  have 1: "highlightMatch canonAscii (utf16 ''Go (go) .go'') (utf16 ''(GO)'')
      = utf16 ''Go <mark>(go)</mark> .go''"
    using res [THEN conjunct1] r by simp
  have 2: "stripMarks (highlightSegments canonAscii (utf16 ''Go (go) .go'') (utf16 ''(GO)''))
      = utf16 ''Go (go) .go''"
    by (rule res [THEN conjunct2, THEN conjunct1])
  have 3: "markedStarts (highlightSegments canonAscii (utf16 ''Go (go) .go'') (utf16 ''(GO)''))
      = [3]"
    by code_simp
  have 4: "occurrences canonAscii (utf16 ''(GO)'') (utf16 ''Go (go) .go'') = [3]"
    by code_simp
  from t q 1 2 3 4 show ?thesis by (intro conjI)
qed

text \<open>
  C4 as stated fails where occurrences overlap: in \<^verbatim>\<open>aaa\<close> the query \<^verbatim>\<open>aa\<close>
  occurs at positions 0 and 1, and only the occurrence at 0 is wrapped.
\<close>

theorem highlightMatch_overlap_counterexample:
  "highlightMatch canonAscii (utf16 ''aaa'') (utf16 ''aa'') = utf16 ''<mark>aa</mark>a''
   \<and> occurrences canonAscii (utf16 ''aa'') (utf16 ''aaa'') = [0, 1]
   \<and> markedStarts (highlightSegments canonAscii (utf16 ''aaa'') (utf16 ''aa'')) = [0]"
proof (intro conjI)
  show "highlightMatch canonAscii (utf16 ''aaa'') (utf16 ''aa'') = utf16 ''<mark>aa</mark>a''"
    by code_simp
  show "occurrences canonAscii (utf16 ''aa'') (utf16 ''aaa'') = [0, 1]"
    by code_simp
  show "markedStarts (highlightSegments canonAscii (utf16 ''aaa'') (utf16 ''aa'')) = [0]"
    by code_simp
qed

section \<open>Searching\<close>

lemma loadedState_eq:
  "loadedState =
     initialState\<lparr>searchIndex := Some (MiniSearch sampleSearch),
                    console := [LogInitStart, LogIndexLoaded, LogInitDone]\<rparr>"
  by (simp add: loadedState_def init_def loadSearchIndex_def okResponse_def sampleLoadJSON_def
        initialState_def Let_def)

lemma unloadedState_eq:
  "unloadedState =
     initialState\<lparr>console := [LogInitStart, ErrorIndexLoad (HttpError 404), LogInitDone]\<rparr>"
  by (simp add: unloadedState_def init_def loadSearchIndex_def notFoundResponse_def
        initialState_def Let_def)

lemma searchIndex_renderResults: "searchIndex (renderResults canon results s) = searchIndex s"
  by (simp add: renderResults_def Let_def)

lemma searchIndex_performSearch:
  "searchIndex (performSearch canon arraySort query s) = searchIndex s"
  by (simp add: performSearch_def searchIndex_renderResults Let_def
        split: option.split sum.split)

lemma performSearch_unloaded:
  "searchIndex s = None \<Longrightarrow>
     performSearch canon arraySort query s = s\<lparr>console := console s @ [WarnIndexNotLoaded]\<rparr>"
  by (simp add: performSearch_def)

lemma performSearch_short_loaded:
  "searchIndex s = Some idx \<Longrightarrow> length query < 2 \<Longrightarrow>
     performSearch canon arraySort query s =
       s\<lparr>dropdownChildren := [], dropdownShow := False,
         searchResults := [], currentFocusIndex := - 1\<rparr>"
  by (simp add: performSearch_def)

lemma searchIndex_keydown: "searchIndex (keydown k s) = searchIndex s"
  by (cases k) (simp_all add: keydown_def handleKeyboardNavigation_def updateActiveResult_def Let_def)

lemma keydown_no_items: "dropdownChildren s = [] \<Longrightarrow> keydown k s = s"
  by (simp add: keydown_def handleKeyboardNavigation_def)

lemma init_unloaded:
  "searchIndex (init loadJSON fetched) = None \<Longrightarrow>
     dropdownChildren (init loadJSON fetched) = [] \<and> \<not> dropdownShow (init loadJSON fetched)
     \<and> searchResults (init loadJSON fetched) = []
     \<and> currentFocusIndex (init loadJSON fetched) = - 1"
  by (simp add: init_def loadSearchIndex_def initialState_def Let_def
        split: sum.splits if_splits)

text \<open>
  While the index is unset nothing has been rendered: every state the page
  reaches with the index unset has an empty, hidden dropdown, no stored result
  and the focus index -1.
\<close>

lemma unloaded_is_quiet:
  assumes "reachable canon arraySort s"
  shows "searchIndex s = None \<longrightarrow>
           dropdownChildren s = [] \<and> \<not> dropdownShow s
           \<and> searchResults s = [] \<and> currentFocusIndex s = - 1"
  using assms
proof (induction rule: reachable.induct)
  case (after_init loadJSON fetched)
  then show ?case using init_unloaded by blast
next
  case (edit_input s v)
  then show ?case by simp
next
  case (blur_input s)
  then show ?case by simp
next
  case (input_event s)
  show ?case
  proof
    assume "searchIndex (onInput canon arraySort s) = None"
    then have n: "searchIndex s = None" by (simp add: onInput_def searchIndex_performSearch)
    with input_event.IH show "dropdownChildren (onInput canon arraySort s) = []
        \<and> \<not> dropdownShow (onInput canon arraySort s)
        \<and> searchResults (onInput canon arraySort s) = []
        \<and> currentFocusIndex (onInput canon arraySort s) = - 1"
      by (simp add: onInput_def performSearch_unloaded [OF n])
  qed
next
  case (focus_event s)
  show ?case
  proof
    assume "searchIndex (onFocus canon arraySort s) = None"
    then have n: "searchIndex s = None"
      by (simp add: onFocus_def Let_def searchIndex_performSearch split: if_splits)
    then have n': "searchIndex (s\<lparr>inputFocused := True\<rparr>) = None" by simp
    from focus_event.IH n show "dropdownChildren (onFocus canon arraySort s) = []
        \<and> \<not> dropdownShow (onFocus canon arraySort s)
        \<and> searchResults (onFocus canon arraySort s) = []
        \<and> currentFocusIndex (onFocus canon arraySort s) = - 1"
      by (simp add: onFocus_def Let_def performSearch_unloaded [OF n'])
  qed
next
  case (keydown_event s k)
  show ?case
  proof
    assume "searchIndex (keydown k s) = None"
    then have n: "searchIndex s = None" by (simp add: searchIndex_keydown)
    with keydown_event.IH have q: "dropdownChildren s = [] \<and> \<not> dropdownShow s
        \<and> searchResults s = [] \<and> currentFocusIndex s = - 1" by simp
    then have "keydown k s = s" by (simp add: keydown_no_items)
    with q show "dropdownChildren (keydown k s) = [] \<and> \<not> dropdownShow (keydown k s)
        \<and> searchResults (keydown k s) = [] \<and> currentFocusIndex (keydown k s) = - 1"
      by simp
  qed
next
  case (click_outside s)
  then show ?case by (simp add: onClickOutside_def)
next
  case (mouseenter_item s index)
  then show ?case by (auto simp: mouseenter_def)
next
  case (mouseleave_item s index)
  then show ?case by (auto simp: mouseleave_def)
next
  case (click_item s index)
  then show ?case by simp
qed

text \<open>
  C2.  In every state the page reaches, \<^verbatim>\<open>performSearch\<close> with a query shorter
  than two code units leaves no dropdown: afterwards the dropdown is empty and
  without the \<^verbatim>\<open>show\<close> class, the stored result list is empty and the focus
  index is -1.  With the index loaded the second guard of \<^verbatim>\<open>performSearch\<close>
  makes exactly these four assignments; with the index unset the first guard
  returns, and nothing had been rendered.
\<close>

theorem short_query_no_dropdown:
  assumes "reachable canon arraySort s" and "length query < 2"
  shows "dropdownChildren (performSearch canon arraySort query s) = []
       \<and> \<not> dropdownShow (performSearch canon arraySort query s)
       \<and> searchResults (performSearch canon arraySort query s) = []
       \<and> currentFocusIndex (performSearch canon arraySort query s) = - 1
       \<and> (searchIndex s \<noteq> None \<longrightarrow>
            performSearch canon arraySort query s =
              s\<lparr>dropdownChildren := [], dropdownShow := False,
                searchResults := [], currentFocusIndex := - 1\<rparr>)"
proof (cases "searchIndex s")
  case None
  from unloaded_is_quiet [OF assms(1)] None
  have "dropdownChildren s = [] \<and> \<not> dropdownShow s
      \<and> searchResults s = [] \<and> currentFocusIndex s = - 1" by simp
  then show ?thesis using None by (simp add: performSearch_unloaded [OF None])
next
  case (Some idx)
  then show ?thesis by (simp add: performSearch_short_loaded [OF Some assms(2)])
qed

lemma shownState_index: "searchIndex shownState = Some (MiniSearch sampleSearch)"
  by (simp add: shownState_def searchIndex_performSearch loadedState_eq)

lemma trim_go: "trim (utf16 ''go'') = utf16 ''go''"
  by code_simp

lemma shownState_reachable: "reachable canonAscii stableSort shownState"
proof -
  have 0: "reachable canonAscii stableSort loadedState"
    unfolding loadedState_def by (rule reachable.after_init)
  have v: "inputValue loadedState = []" by (simp add: loadedState_eq initialState_def)
  have "onFocus canonAscii stableSort loadedState = loadedState\<lparr>inputFocused := True\<rparr>"
    by (simp add: onFocus_def Let_def v trim_def)
  with reachable.focus_event [OF 0]
  have 1: "reachable canonAscii stableSort (loadedState\<lparr>inputFocused := True\<rparr>)" by simp
  have 2: "reachable canonAscii stableSort
      (loadedState\<lparr>inputFocused := True, inputValue := utf16 ''go''\<rparr>)"
    by (rule reachable.edit_input [OF 1])
  have c: "loadedState\<lparr>inputFocused := True, inputValue := utf16 ''go''\<rparr>
      = loadedState\<lparr>inputValue := utf16 ''go'', inputFocused := True\<rparr>"
    by (cases loadedState) simp
  have "onInput canonAscii stableSort
      (loadedState\<lparr>inputFocused := True, inputValue := utf16 ''go''\<rparr>) = shownState"
    unfolding c by (simp add: onInput_def shownState_def trim_go)
  with reachable.input_event [OF 2] show ?thesis by simp
qed

lemma unloadedState_reachable: "reachable canonAscii stableSort unloadedState"
  unfolding unloadedState_def by (rule reachable.after_init)

theorem short_query_no_dropdown_witness:
  "reachable canonAscii stableSort shownState \<and> length (utf16 ''g'') < 2
   \<and> searchIndex shownState \<noteq> None \<and> dropdownChildren shownState \<noteq> []
   \<and> dropdownChildren (performSearch canonAscii stableSort (utf16 ''g'') shownState) = []
   \<and> \<not> dropdownShow (performSearch canonAscii stableSort (utf16 ''g'') shownState)
   \<and> searchResults (performSearch canonAscii stableSort (utf16 ''g'') shownState) = []
   \<and> currentFocusIndex (performSearch canonAscii stableSort (utf16 ''g'') shownState) = - 1
   \<and> reachable canonAscii stableSort unloadedState \<and> searchIndex unloadedState = None
   \<and> dropdownChildren (performSearch canonAscii stableSort (utf16 ''g'') unloadedState) = []
   \<and> \<not> dropdownShow (performSearch canonAscii stableSort (utf16 ''g'') unloadedState)
   \<and> searchResults (performSearch canonAscii stableSort (utf16 ''g'') unloadedState) = []
   \<and> currentFocusIndex (performSearch canonAscii stableSort (utf16 ''g'') unloadedState) = - 1"
proof -
  have len: "length (utf16 ''g'') < 2" by (simp add: utf16_def)
  have "length (resultItems (dropdownChildren shownState)) = 3" by code_simp
  then have shown: "dropdownChildren shownState \<noteq> []" by auto
  have idx: "searchIndex shownState \<noteq> None" by (simp add: shownState_index)
  have un: "searchIndex unloadedState = None" by (simp add: unloadedState_eq initialState_def)
  note a = short_query_no_dropdown [OF shownState_reachable len]
  note b = short_query_no_dropdown [OF unloadedState_reachable len]
  show ?thesis
    using shownState_reachable unloadedState_reachable len shown idx un
      a [THEN conjunct1] a [THEN conjunct2, THEN conjunct1]
      a [THEN conjunct2, THEN conjunct2, THEN conjunct1]
      a [THEN conjunct2, THEN conjunct2, THEN conjunct2, THEN conjunct1]
      b [THEN conjunct1] b [THEN conjunct2, THEN conjunct1]
      b [THEN conjunct2, THEN conjunct2, THEN conjunct1]
      b [THEN conjunct2, THEN conjunct2, THEN conjunct2, THEN conjunct1]
    by simp
qed

text \<open>
  C6.  When the download of the index fails (\<^verbatim>\<open>fetch\<close> rejects, the status is
  not ok, or the body does not parse), \<^verbatim>\<open>loadSearchIndex\<close> logs the error and
  changes nothing else, so an unset index stays unset; and while the index is
  unset, \<^verbatim>\<open>performSearch\<close> logs a warning and changes nothing else: dropdown,
  stored result list and focus index stay as they are, whatever the query.
\<close>

theorem failed_load_leaves_search_inert:
  "loadSearchIndex loadJSON (Inl e) s = s\<lparr>console := console s @ [ErrorIndexLoad e]\<rparr>
   \<and> (\<not> ok resp \<longrightarrow>
        loadSearchIndex loadJSON (Inr resp) s =
          s\<lparr>console := console s @ [ErrorIndexLoad (HttpError (status resp))]\<rparr>)
   \<and> (ok resp \<and> json_body resp = Inl e \<longrightarrow>
        loadSearchIndex loadJSON (Inr resp) s = s\<lparr>console := console s @ [ErrorIndexLoad e]\<rparr>)
   \<and> ((fetched = Inl e \<or> fetched = Inr resp \<and> (\<not> ok resp \<or> json_body resp = Inl e))
         \<and> searchIndex s = None \<longrightarrow>
        searchIndex (loadSearchIndex loadJSON fetched s) = None)
   \<and> (searchIndex t = None \<longrightarrow>
        performSearch canon arraySort query t = t\<lparr>console := console t @ [WarnIndexNotLoaded]\<rparr>)"
proof -
  have 1: "loadSearchIndex loadJSON (Inl e) s = s\<lparr>console := console s @ [ErrorIndexLoad e]\<rparr>"
    by (simp add: loadSearchIndex_def)
  have 2: "\<not> ok resp \<longrightarrow>
        loadSearchIndex loadJSON (Inr resp) s =
          s\<lparr>console := console s @ [ErrorIndexLoad (HttpError (status resp))]\<rparr>"
    by (simp add: loadSearchIndex_def)
  have 3: "ok resp \<and> json_body resp = Inl e \<longrightarrow>
        loadSearchIndex loadJSON (Inr resp) s = s\<lparr>console := console s @ [ErrorIndexLoad e]\<rparr>"
    by (simp add: loadSearchIndex_def)
  have 4: "(fetched = Inl e \<or> fetched = Inr resp \<and> (\<not> ok resp \<or> json_body resp = Inl e))
         \<and> searchIndex s = None \<longrightarrow>
        searchIndex (loadSearchIndex loadJSON fetched s) = None"
  proof (intro impI, elim conjE disjE)
    assume "fetched = Inl e" "searchIndex s = None"
    then show "searchIndex (loadSearchIndex loadJSON fetched s) = None" by (simp add: 1)
  next
    assume "fetched = Inr resp" "\<not> ok resp" "searchIndex s = None"
    then show "searchIndex (loadSearchIndex loadJSON fetched s) = None" using 2 by simp
  next
    assume a: "fetched = Inr resp" "json_body resp = Inl e" "searchIndex s = None"
    show "searchIndex (loadSearchIndex loadJSON fetched s) = None"
    proof (cases "ok resp")
      case True
      then show ?thesis using a 3 by simp
    next
      case False
      then show ?thesis using a 2 by simp
    qed
  qed
  have 5: "searchIndex t = None \<longrightarrow>
        performSearch canon arraySort query t = t\<lparr>console := console t @ [WarnIndexNotLoaded]\<rparr>"
    by (simp add: performSearch_def)
  from 1 2 3 4 5 show ?thesis by (intro conjI)
qed

theorem failed_load_leaves_search_inert_witness:
  "\<not> ok \<lparr>ok = False, status = 404, json_body = Inl JsonSyntaxError\<rparr>
   \<and> loadSearchIndex (\<lambda>d. Inl LibraryError)
        (Inr \<lparr>ok = False, status = 404, json_body = Inl JsonSyntaxError\<rparr>) initialState
        = initialState\<lparr>console := [ErrorIndexLoad (HttpError 404)]\<rparr>
   \<and> loadSearchIndex (\<lambda>d. Inl LibraryError) (Inr (okResponse (Inl JsonSyntaxError))) initialState
        = initialState\<lparr>console := [ErrorIndexLoad JsonSyntaxError]\<rparr>
   \<and> searchIndex unloadedState = None
   \<and> performSearch canonAscii stableSort (utf16 ''go'') unloadedState
        = unloadedState\<lparr>console :=
            [LogInitStart, ErrorIndexLoad (HttpError 404), LogInitDone, WarnIndexNotLoaded]\<rparr>"
proof -
  have st: "searchIndex unloadedState = None"
    by (simp add: unloadedState_eq initialState_def)
  have con: "console unloadedState = [LogInitStart, ErrorIndexLoad (HttpError 404), LogInitDone]"
    by (simp add: unloadedState_eq)
  have con0: "console initialState = []" by (simp add: initialState_def)
  show ?thesis
    using st
      failed_load_leaves_search_inert [of "\<lambda>d. Inl LibraryError" JsonSyntaxError initialState
        "\<lparr>ok = False, status = 404, json_body = Inl JsonSyntaxError\<rparr>" "Inl FetchFailed"
        unloadedState canonAscii stableSort "utf16 ''go''"]
      failed_load_leaves_search_inert [of "\<lambda>d. Inl LibraryError" JsonSyntaxError initialState
        "okResponse (Inl JsonSyntaxError)" "Inl FetchFailed"
        unloadedState canonAscii stableSort "utf16 ''go''"]
    by (simp add: con con0 okResponse_def)
qed

text \<open>
  C10.  When the index is loaded, the query has at least two code units and the
  library returns no hit, the dropdown is set to the message of the empty result
  and gets the \<^verbatim>\<open>show\<close> class: it is shown, not hidden.  (Sorting an empty
  array leaves it empty.)
\<close>

theorem empty_result_shows_message:
  assumes "searchIndex s = Some idx" and "2 \<le> length query"
    and "search idx query searchOptions = Inr []"
    and "arraySort compareHits [] = []"
  shows "renderResults canon [] s =
           s\<lparr>dropdownChildren := [NoResults noResultsText], dropdownShow := True\<rparr>
       \<and> performSearch canon arraySort query s =
           s\<lparr>searchResults := [],
             dropdownChildren := [NoResults noResultsText], dropdownShow := True\<rparr>"
  using assms by (simp add: performSearch_def renderResults_def)

theorem empty_result_shows_message_witness:
  "searchIndex loadedState = Some (MiniSearch sampleSearch)
   \<and> 2 \<le> length (utf16 ''zz'')
   \<and> search (MiniSearch sampleSearch) (utf16 ''zz'') searchOptions = Inr []
   \<and> stableSort compareHits [] = []
   \<and> dropdownChildren (performSearch canonAscii stableSort (utf16 ''zz'') loadedState)
        = [NoResults noResultsText]
   \<and> dropdownShow (performSearch canonAscii stableSort (utf16 ''zz'') loadedState)"
proof -
  have 1: "searchIndex loadedState = Some (MiniSearch sampleSearch)"
    by (simp add: loadedState_eq)
  have 2: "2 \<le> length (utf16 ''zz'')" by (simp add: utf16_def)
  have 3: "search (MiniSearch sampleSearch) (utf16 ''zz'') searchOptions = Inr []"
    by (simp add: sampleSearch_def)
  have 4: "stableSort compareHits [] = []" by (simp add: stableSort_def)
  show ?thesis
    using 1 2 3 4
      empty_result_shows_message [of loadedState "MiniSearch sampleSearch" "utf16 ''zz''"
        stableSort canonAscii, OF 1 2 3 4]
    by simp
qed

text \<open>
  The comparison function is not transitive: of three hits whose scores are 1,
  0.92 and 0.84 and whose weights are 1, 2 and 3, it puts the second before the
  first and the third before the second, but the first before the third.  The
  order \<^verbatim>\<open>Array.prototype.sort\<close> produces for such hits is left to the host.
\<close>

lemma compareHits_not_transitive:
  "compareHits (sampleHits ! 0) (sampleHits ! 1) > 0
   \<and> compareHits (sampleHits ! 1) (sampleHits ! 2) > 0
   \<and> compareHits (sampleHits ! 0) (sampleHits ! 2) < 0"
  by (simp add: sampleHits_def sampleHit_def compareHits_def Let_def)

text \<open>
  What the comparison function says about a pair, and what a stable insertion
  sort makes of it: the function is antisymmetric, so inserting keeps every pair
  of neighbours in order even without transitivity.
\<close>

lemma compareHits_le_0_iff:
  "compareHits a b \<le> 0 \<longleftrightarrow>
     score a - score b > 1 / 10
     \<or> \<bar>score a - score b\<bar> \<le> 1 / 10 \<and> weight a \<ge> weight b"
  by (auto simp: compareHits_def Let_def abs_if split: if_splits)

lemma compareHits_antisym: "compareHits b a = - compareHits a b"
  by (simp add: compareHits_def Let_def abs_minus_commute)

lemma insertHit_keeps_neighbours:
  "successively (\<lambda>a b. compareHits a b \<le> 0) ys \<Longrightarrow>
     successively (\<lambda>a b. compareHits a b \<le> 0) (insertHit compareHits x ys)"
proof (induction ys)
  case Nil
  then show ?case by simp
next
  case (Cons y ys)
  show ?case
  proof (cases "compareHits x y < 0")
    case True
    then show ?thesis using Cons.prems by simp
  next
    case False
    then have yx: "compareHits y x \<le> 0" using compareHits_antisym [of x y] by simp
    from Cons.prems have tl: "successively (\<lambda>a b. compareHits a b \<le> 0) ys"
      by (cases ys) (simp_all add: successively_Cons)
    show ?thesis
    proof (cases ys)
      case Nil
      then show ?thesis using False yx by simp
    next
      case (Cons z zs)
      then show ?thesis using False yx Cons.IH [OF tl] Cons.prems
        by (auto simp: successively_Cons)
    qed
  qed
qed

lemma stableSort_neighbours:
  "successively (\<lambda>a b. compareHits a b \<le> 0) (stableSort compareHits xs)"
proof -
  have "successively (\<lambda>a b. compareHits a b \<le> 0) acc \<Longrightarrow>
      successively (\<lambda>a b. compareHits a b \<le> 0)
        (foldl (\<lambda>acc x. insertHit compareHits x acc) acc xs)" for acc
    by (induction xs arbitrary: acc) (simp_all add: insertHit_keeps_neighbours)
  from this [of "[]"] show ?thesis by (simp add: stableSort_def)
qed

section \<open>Rendering\<close>

lemma length_enumerate_take: "length (enumerate 0 (take 8 rs)) = min 8 (length rs)"
  by (simp add: min.commute)

lemma resultItems_map_ResultItem: "resultItems (map (\<lambda>x. ResultItem (f x)) xs) = map f xs"
  by (induction xs) simp_all

text \<open>
  C3.  For a non-empty result list \<^verbatim>\<open>renderResults\<close> puts one item per result
  of the first eight into the dropdown, in order, and nothing else: the dropdown
  holds \<open>min 8 (length results)\<close> items, item \<open>i\<close> is the rendering of result
  \<open>i\<close>, and any list with the same first eight results renders to the same
  state, so a result at index 8 or beyond is never rendered.
\<close>

theorem renderResults_first_eight:
  assumes "results \<noteq> []"
  shows "length (dropdownChildren (renderResults canon results s)) = min 8 (length results)
       \<and> length (resultItems (dropdownChildren (renderResults canon results s)))
           = min 8 (length results)
       \<and> (\<forall>i < min 8 (length results).
            dropdownChildren (renderResults canon results s) ! i =
              ResultItem (renderItem canon (trim (inputValue s)) (currentFocusIndex s) i
                            (results ! i)))
       \<and> (\<forall>others. take 8 others = take 8 results \<longrightarrow>
            renderResults canon others s = renderResults canon results s)"
proof -
  let ?f = "\<lambda>(index, r). renderItem canon (trim (inputValue s)) (currentFocusIndex s) index r"
  have ch: "dropdownChildren (renderResults canon results s) =
      map (\<lambda>x. ResultItem (?f x)) (enumerate 0 (take 8 results))"
    using assms by (simp add: renderResults_def Let_def case_prod_unfold)
  have 1: "length (dropdownChildren (renderResults canon results s)) = min 8 (length results)"
    unfolding ch by (simp add: min.commute)
  have 2: "length (resultItems (dropdownChildren (renderResults canon results s)))
      = min 8 (length results)"
    unfolding ch resultItems_map_ResultItem by (simp add: min.commute)
  have 3: "\<forall>i < min 8 (length results).
      dropdownChildren (renderResults canon results s) ! i =
        ResultItem (renderItem canon (trim (inputValue s)) (currentFocusIndex s) i (results ! i))"
    unfolding ch by (simp add: nth_enumerate_eq)
  have 4: "\<forall>others. take 8 others = take 8 results \<longrightarrow>
      renderResults canon others s = renderResults canon results s"
  proof (intro allI impI)
    fix others :: "hit list"
    assume t: "take 8 others = take 8 results"
    have "take 8 results \<noteq> []" using assms by simp
    with t have "others \<noteq> []" by auto
    then show "renderResults canon others s = renderResults canon results s"
      using assms t by (simp add: renderResults_def Let_def)
  qed
  from 1 2 3 4 show ?thesis by blast
qed

lemma length_manyHits: "length manyHits = 10"
  by (simp add: manyHits_def)

theorem renderResults_first_eight_witness:
  "manyHits \<noteq> [] \<and> length manyHits = 10
   \<and> length (dropdownChildren (renderResults canonAscii manyHits initialState)) = 8
   \<and> length (resultItems (dropdownChildren (renderResults canonAscii manyHits initialState))) = 8
   \<and> renderResults canonAscii (take 8 manyHits) initialState
       = renderResults canonAscii manyHits initialState"
proof -
  have ne: "manyHits \<noteq> []" using length_manyHits by auto
  note res = renderResults_first_eight [OF ne, of canonAscii initialState]
  have 1: "length (dropdownChildren (renderResults canonAscii manyHits initialState)) = 8"
    using res [THEN conjunct1] by (simp add: length_manyHits)
  have 2:
    "length (resultItems (dropdownChildren (renderResults canonAscii manyHits initialState))) = 8"
    using res [THEN conjunct2, THEN conjunct1] by (simp add: length_manyHits)
  have "take 8 (take 8 manyHits) = take 8 manyHits \<longrightarrow>
      renderResults canonAscii (take 8 manyHits) initialState
        = renderResults canonAscii manyHits initialState"
    by (rule res [THEN conjunct2, THEN conjunct2, THEN conjunct2, THEN spec])
  then have 3: "renderResults canonAscii (take 8 manyHits) initialState
        = renderResults canonAscii manyHits initialState"
    by simp
  from ne length_manyHits 1 2 3 show ?thesis by (intro conjI)
qed

section \<open>Keyboard navigation\<close>

lemma resultItems_forEachItem:
  "length (resultItems (forEachItem f i ns)) = length (resultItems ns)"
  by (induction f i ns rule: forEachItem.induct) simp_all

lemma resultItems_updateActiveResult:
  "length (resultItems (dropdownChildren (updateActiveResult s))) =
     length (resultItems (dropdownChildren s))"
  by (simp add: updateActiveResult_def resultItems_forEachItem)

lemma currentFocusIndex_updateActiveResult:
  "currentFocusIndex (updateActiveResult s) = currentFocusIndex s"
  by (simp add: updateActiveResult_def)

lemma keydown_ArrowDown:
  "resultItems (dropdownChildren s) \<noteq> [] \<Longrightarrow>
     keydown ArrowDown s =
       updateActiveResult
         (s\<lparr>currentFocusIndex :=
              min (currentFocusIndex s + 1) (int (length (resultItems (dropdownChildren s))) - 1)\<rparr>)"
  by (simp add: keydown_def handleKeyboardNavigation_def Let_def)

lemma keydown_ArrowUp:
  "resultItems (dropdownChildren s) \<noteq> [] \<Longrightarrow>
     keydown ArrowUp s =
       updateActiveResult (s\<lparr>currentFocusIndex := max (currentFocusIndex s - 1) (- 1)\<rparr>)"
  by (simp add: keydown_def handleKeyboardNavigation_def Let_def)

lemma arrow_step:
  assumes items: "resultItems (dropdownChildren s) \<noteq> []"
    and k: "k = ArrowDown \<or> k = ArrowUp"
    and lo: "- 1 \<le> currentFocusIndex s"
    and hi: "currentFocusIndex s \<le> int (length (resultItems (dropdownChildren s))) - 1"
  shows "- 1 \<le> currentFocusIndex (keydown k s)
       \<and> currentFocusIndex (keydown k s) \<le> int (length (resultItems (dropdownChildren s))) - 1
       \<and> length (resultItems (dropdownChildren (keydown k s))) =
           length (resultItems (dropdownChildren s))"
proof -
  have pos: "0 < length (resultItems (dropdownChildren s))" using items by simp
  from k show ?thesis
  proof
    assume "k = ArrowDown"
    then show ?thesis
      using pos lo hi
      by (simp add: keydown_ArrowDown [OF items] currentFocusIndex_updateActiveResult
            resultItems_updateActiveResult)
  next
    assume "k = ArrowUp"
    then show ?thesis
      using pos lo hi
      by (simp add: keydown_ArrowUp [OF items] currentFocusIndex_updateActiveResult
            resultItems_updateActiveResult)
  qed
qed

lemma arrow_run:
  "resultItems (dropdownChildren s) \<noteq> [] \<Longrightarrow>
   set ks \<subseteq> {ArrowDown, ArrowUp} \<Longrightarrow>
   - 1 \<le> currentFocusIndex s \<Longrightarrow>
   currentFocusIndex s \<le> int (length (resultItems (dropdownChildren s))) - 1 \<Longrightarrow>
     - 1 \<le> currentFocusIndex (foldl (\<lambda>t k. keydown k t) s ks)
     \<and> currentFocusIndex (foldl (\<lambda>t k. keydown k t) s ks)
           \<le> int (length (resultItems (dropdownChildren s))) - 1
     \<and> length (resultItems (dropdownChildren (foldl (\<lambda>t k. keydown k t) s ks))) =
         length (resultItems (dropdownChildren s))"
proof (induction ks arbitrary: s)
  case Nil
  then show ?case by simp
next
  case (Cons k ks)
  from Cons.prems(2) have k: "k = ArrowDown \<or> k = ArrowUp" and ks: "set ks \<subseteq> {ArrowDown, ArrowUp}"
    by auto
  note step = arrow_step [OF Cons.prems(1) k Cons.prems(3) Cons.prems(4)]
  from step have len: "length (resultItems (dropdownChildren (keydown k s))) =
      length (resultItems (dropdownChildren s))" by simp
  have items': "resultItems (dropdownChildren (keydown k s)) \<noteq> []"
    using Cons.prems(1) len by (metis length_0_conv)
  have "- 1 \<le> currentFocusIndex (keydown k s)"
    and "currentFocusIndex (keydown k s) \<le> int (length (resultItems (dropdownChildren (keydown k s)))) - 1"
    using step by simp_all
  from Cons.IH [OF items' ks this] show ?case by (simp add: len)
qed

text \<open>
  C1.  While the dropdown holds at least one result item, ArrowDown sets the focus
  index to \<open>min (currentFocusIndex + 1) (resultCount - 1)\<close> and ArrowUp sets it
  to \<open>max (currentFocusIndex - 1) (-1)\<close>; a focus index that starts in
  \<open>[-1, resultCount - 1]\<close> is in that range after every sequence of ArrowDown
  and ArrowUp events, during which the number of result items does not change.
\<close>

theorem arrow_keys_clamp_focus:
  assumes "resultItems (dropdownChildren s) \<noteq> []"
  shows "currentFocusIndex (keydown ArrowDown s) =
           min (currentFocusIndex s + 1) (int (length (resultItems (dropdownChildren s))) - 1)
       \<and> currentFocusIndex (keydown ArrowUp s) = max (currentFocusIndex s - 1) (- 1)
       \<and> (set ks \<subseteq> {ArrowDown, ArrowUp}
            \<and> - 1 \<le> currentFocusIndex s
            \<and> currentFocusIndex s \<le> int (length (resultItems (dropdownChildren s))) - 1
          \<longrightarrow> - 1 \<le> currentFocusIndex (foldl (\<lambda>t k. keydown k t) s ks)
            \<and> currentFocusIndex (foldl (\<lambda>t k. keydown k t) s ks)
                 \<le> int (length (resultItems (dropdownChildren s))) - 1
            \<and> length (resultItems (dropdownChildren (foldl (\<lambda>t k. keydown k t) s ks))) =
                length (resultItems (dropdownChildren s)))"
  using assms arrow_run [OF assms, of ks]
  by (simp add: keydown_ArrowDown keydown_ArrowUp currentFocusIndex_updateActiveResult)

lemma shownState_items: "length (resultItems (dropdownChildren shownState)) = 3"
  by code_simp

lemma shownState_focus: "currentFocusIndex shownState = - 1"
  by code_simp

theorem arrow_keys_clamp_focus_witness:
  "resultItems (dropdownChildren shownState) \<noteq> []
   \<and> currentFocusIndex (keydown ArrowDown shownState) = 0
   \<and> currentFocusIndex (keydown ArrowUp shownState) = - 1
   \<and> set [ArrowDown, ArrowDown, ArrowDown, ArrowDown, ArrowUp] \<subseteq> {ArrowDown, ArrowUp}
   \<and> - 1 \<le> currentFocusIndex
               (foldl (\<lambda>t k. keydown k t) shownState
                  [ArrowDown, ArrowDown, ArrowDown, ArrowDown, ArrowUp])
   \<and> currentFocusIndex
         (foldl (\<lambda>t k. keydown k t) shownState
            [ArrowDown, ArrowDown, ArrowDown, ArrowDown, ArrowUp]) \<le> 2"
proof -
  have items: "resultItems (dropdownChildren shownState) \<noteq> []"
    using shownState_items by (metis length_0_conv zero_neq_numeral)
  show ?thesis
    using items
      arrow_keys_clamp_focus [OF items, of "[ArrowDown, ArrowDown, ArrowDown, ArrowDown, ArrowUp]"]
    by (simp add: shownState_items shownState_focus)
qed

text \<open>
  C8, as the code has it.  An Escape key event received while the dropdown holds
  at least one result item empties the dropdown, removes its \<^verbatim>\<open>show\<close> class,
  blurs the search input and resets the focus index to -1.
\<close>

theorem escape_clears_results:
  assumes "resultItems (dropdownChildren s) \<noteq> []"
  shows "handleKeyboardNavigation Escape s =
           (s\<lparr>dropdownChildren := [], dropdownShow := False,
              inputFocused := False, currentFocusIndex := - 1\<rparr>, False)"
  using assms by (simp add: handleKeyboardNavigation_def Let_def)

theorem escape_clears_results_witness:
  "resultItems (dropdownChildren shownState) \<noteq> []
   \<and> dropdownShow shownState \<and> inputFocused shownState
   \<and> dropdownChildren (keydown Escape shownState) = []
   \<and> \<not> dropdownShow (keydown Escape shownState)
   \<and> \<not> inputFocused (keydown Escape shownState)
   \<and> currentFocusIndex (keydown Escape shownState) = - 1"
proof -
  have items: "resultItems (dropdownChildren shownState) \<noteq> []"
    using shownState_items by (metis length_0_conv zero_neq_numeral)
  have "dropdownShow shownState" by code_simp
  moreover have "inputFocused shownState" by code_simp
  ultimately show ?thesis
    using items escape_clears_results [OF items] by (simp add: keydown_def)
qed

text \<open>
  C8 as stated fails: after a search without hits the dropdown is shown with the
  message element only, and Escape leaves it shown and the input focused.
\<close>

theorem escape_no_hits_counterexample:
  "dropdownShow noHitsState
   \<and> dropdownChildren (keydown Escape noHitsState) = [NoResults noResultsText]
   \<and> dropdownShow (keydown Escape noHitsState)
   \<and> inputFocused (keydown Escape noHitsState)"
  by (simp add: noHitsState_def loadedState_eq initialState_def performSearch_def
        sampleSearch_def stableSort_def renderResults_def keydown_def
        handleKeyboardNavigation_def utf16_def)

text \<open>
  C9.  A key event received while the dropdown holds no result item (as when it
  shows only the message of the empty result) changes nothing: dropdown content,
  \<^verbatim>\<open>show\<close> class, input focus, focus index and every other part of the state
  stay as they are, and the default action is not prevented.
\<close>

theorem keydown_without_items_is_noop:
  assumes "resultItems (dropdownChildren s) = []"
  shows "handleKeyboardNavigation k s = (s, False)"
  using assms by (simp add: handleKeyboardNavigation_def)

lemma noHitsState_children: "dropdownChildren noHitsState = [NoResults noResultsText]"
  by (simp add: noHitsState_def loadedState_eq initialState_def performSearch_def
        sampleSearch_def stableSort_def renderResults_def utf16_def)

theorem keydown_without_items_is_noop_witness:
  "resultItems (dropdownChildren noHitsState) = []
   \<and> handleKeyboardNavigation Escape noHitsState = (noHitsState, False)
   \<and> handleKeyboardNavigation Enter noHitsState = (noHitsState, False)
   \<and> handleKeyboardNavigation ArrowUp noHitsState = (noHitsState, False)
   \<and> handleKeyboardNavigation ArrowDown noHitsState = (noHitsState, False)"
proof -
  have items: "resultItems (dropdownChildren noHitsState) = []"
    by (simp add: noHitsState_children)
  show ?thesis
    using items keydown_without_items_is_noop [OF items, of Escape]
      keydown_without_items_is_noop [OF items, of Enter]
      keydown_without_items_is_noop [OF items, of ArrowUp]
      keydown_without_items_is_noop [OF items, of ArrowDown]
    by simp
qed

section \<open>The random-number button\<close>






end
